theory Spec2Isabelle
  imports Main "HOL-Library.Multiset" "HOL-Library.Sublist"
begin

section \<open>Data model (src/shared/types.ts)\<close>

text \<open>
  JavaScript numbers that hold identifiers, counts, limits and millisecond timestamps
  (\<open>Date.getTime()\<close>) are modelled as \<open>int\<close>; strings as \<open>string\<close>, one character
  for each code unit; an optional field (\<open>preview?: string\<close>) as an \<open>option\<close>, \<open>None\<close>
  standing for \<open>undefined\<close>.
\<close>

datatype format = Text | Image | File | Html | Rtf

text \<open>The fields of \<open>Omit<ClipboardEntry, 'id' | 'createdAt' | 'updatedAt'>\<close>.\<close>

record EntryDraft =
  content :: string
  contentType :: string
  format :: format
  preview :: "string option"
  filePath :: "string option"
  appName :: "string option"
  isPinned :: bool
  isFavorite :: bool
  category :: "string option"
  tags :: "string list"
  usageCount :: int
  lastUsedAt :: "int option"
  note_entry :: "string option"

record ClipboardEntry = EntryDraft +
  id_entry :: int
  createdAt :: int
  updatedAt :: int

section \<open>The history store (src/main/json-storage.ts)\<close>

text \<open>
  The state of a \<open>JsonStorageManager\<close>: the entries array (most recent first), the next
  identifier, and whether a debounced save is pending (\<open>saveTimeout\<close> is not null).
\<close>

record JsonStorageManager =
  entries :: "ClipboardEntry list"
  nextId :: int
  saveScheduled :: bool

definition debouncedSave :: "JsonStorageManager \<Rightarrow> JsonStorageManager" where
  "debouncedSave st = st\<lparr>saveScheduled := True\<rparr>"

text \<open>
  \<open>Array.prototype.slice(start, end)\<close> on integer arguments: a negative index counts
  from the end of the array, both indices are cut to the array's bounds.
\<close>

definition slice :: "int \<Rightarrow> int \<Rightarrow> 'a list \<Rightarrow> 'a list" where
  "slice start fin xs =
     (let len = int (length xs);
          k = (if start < 0 then max (len + start) 0 else min start len);
          final = (if fin < 0 then max (len + fin) 0 else min fin len)
      in take (nat (final - k)) (drop (nat k) xs))"

text \<open>
  \<open>Array.prototype.sort\<close> is stable; with the comparator
  \<open>(a, b) => a.createdAt.getTime() - b.createdAt.getTime()\<close> it is the stable sort by
  ascending \<open>createdAt\<close>, and with the operands exchanged the stable sort by descending
  \<open>createdAt\<close>.
\<close>

definition sortOldestFirst :: "ClipboardEntry list \<Rightarrow> ClipboardEntry list" where
  "sortOldestFirst xs = sort_key createdAt xs"

definition sortNewestFirst :: "ClipboardEntry list \<Rightarrow> ClipboardEntry list" where
  "sortNewestFirst xs = sort_key (\<lambda>e. - createdAt e) xs"

definition getClipboardEntryCount :: "JsonStorageManager \<Rightarrow> nat" where
  "getClipboardEntryCount st = length (entries st)"

definition getNonPinnedEntryCount :: "JsonStorageManager \<Rightarrow> nat" where
  "getNonPinnedEntryCount st = length (filter (\<lambda>e. \<not> isPinned e) (entries st))"

definition getPinnedEntryCount :: "JsonStorageManager \<Rightarrow> nat" where
  "getPinnedEntryCount st = length (filter isPinned (entries st))"

definition clampedLimit :: "int \<Rightarrow> int" where
  "clampedLimit maxHistoryItems = max 20 (min 100 maxHistoryItems)"

definition enforceHistoryLimit :: "int \<Rightarrow> JsonStorageManager \<Rightarrow> JsonStorageManager" where
  "enforceHistoryLimit maxHistoryItems st =
     (let clampedLimit = clampedLimit maxHistoryItems;
          nonPinnedEntries = filter (\<lambda>e. \<not> isPinned e) (entries st);
          nonPinnedCount = int (length nonPinnedEntries)
      in if nonPinnedCount > clampedLimit then
           (let excessCount = nonPinnedCount - clampedLimit;
                sortedNonPinned = sortOldestFirst nonPinnedEntries;
                idsToDelete = map id_entry (slice 0 excessCount sortedNonPinned)
            in st\<lparr>entries := filter (\<lambda>e. id_entry e \<notin> set idsToDelete) (entries st)\<rparr>)
         else st)"

text \<open>
  \<open>addClipboardEntry(entry, maxHistoryItems = 40)\<close>: the limit is optional, and the two
  \<open>new Date()\<close> readings are arguments. The result is the new entry and the new state.
\<close>

definition addClipboardEntry ::
  "EntryDraft \<Rightarrow> int option \<Rightarrow> int \<Rightarrow> int \<Rightarrow> JsonStorageManager
     \<Rightarrow> ClipboardEntry \<times> JsonStorageManager" where
  "addClipboardEntry entry maxHistoryItems now1 now2 st =
     (let limit = (case maxHistoryItems of None \<Rightarrow> 40 | Some m \<Rightarrow> m);
          newEntry = EntryDraft.extend entry
                       (ClipboardEntry.fields (nextId st) now1 now2);
          st1 = st\<lparr>nextId := nextId st + 1, entries := newEntry # entries st\<rparr>;
          st2 = (if \<not> isPinned entry then enforceHistoryLimit limit st1 else st1)
      in (newEntry, debouncedSave st2))"

text \<open>A caller inserting a sequence of drafts, each with the same limit.\<close>

fun addAll ::
  "int \<Rightarrow> (EntryDraft \<times> int \<times> int) list \<Rightarrow> JsonStorageManager \<Rightarrow> JsonStorageManager" where
  "addAll M [] st = st"
| "addAll M ((d, now1, now2) # ds) st =
     addAll M ds (snd (addClipboardEntry d (Some M) now1 now2 st))"

definition emptyStorage :: JsonStorageManager where
  "emptyStorage = \<lparr>entries = [], nextId = 1, saveScheduled = False\<rparr>"

definition textDraft :: "string \<Rightarrow> EntryDraft" where
  "textDraft s = \<lparr>content = s, contentType = ''text'', format = Text, preview = Some s,
     filePath = None, appName = Some ''TestApp'', isPinned = False, isFavorite = False,
     category = Some ''Text'', tags = [], usageCount = 0, lastUsedAt = None, note_entry = None\<rparr>"

text \<open>
  The string a \<open>format\<close> value is in the source (\<open>'text' | 'image' | 'file' | 'html' | 'rtf'\<close>).
\<close>

fun formatName :: "format \<Rightarrow> string" where
  "formatName Text = ''text''"
| "formatName Image = ''image''"
| "formatName File = ''file''"
| "formatName Html = ''html''"
| "formatName Rtf = ''rtf''"

subsection \<open>Query\<close>

text \<open>
  \<open>GetHistoryOptions\<close>; the query never reads \<open>dateRange\<close>. The two filter fields carry
  a suffix, since \<open>category\<close> and \<open>contentType\<close> are fields of an entry already.
\<close>

record GetHistoryOptions =
  limit :: "int option"
  offset :: "int option"
  category_opt :: "string option"
  contentType_opt :: "string option"
  dateRange :: "(int \<times> int) option"
  searchQuery :: "string option"

text \<open>
  \<open>String.prototype.toLowerCase\<close> is the runtime's Unicode case folding. It is a
  parameter \<open>toLowerCase\<close> of the query, any function from strings to strings, so every
  result below holds for the real folding.
\<close>

text \<open>\<open>s.includes(q)\<close>: \<open>q\<close> occurs in \<open>s\<close> at some position.\<close>

fun includes_str :: "string \<Rightarrow> string \<Rightarrow> bool" where
  "includes_str [] q = (q = [])"
| "includes_str (c # s) q = (prefix q (c # s) \<or> includes_str s q)"

text \<open>\<open>field?.toLowerCase().includes(query)\<close> on an optional field: \<open>undefined\<close> is falsy.\<close>

definition optIncludes :: "(string \<Rightarrow> string) \<Rightarrow> string option \<Rightarrow> string \<Rightarrow> bool" where
  "optIncludes toLowerCase field query =
     (case field of None \<Rightarrow> False | Some s \<Rightarrow> includes_str (toLowerCase s) query)"

text \<open>
  \<open>getClipboardHistory(options)\<close>. A filter runs when its option is truthy: present and
  not the empty string.
\<close>

definition getClipboardHistory ::
  "(string \<Rightarrow> string) \<Rightarrow> GetHistoryOptions \<Rightarrow> JsonStorageManager \<Rightarrow> ClipboardEntry list" where
  "getClipboardHistory toLowerCase options st =
     (let limit = (case limit options of None \<Rightarrow> 100 | Some l \<Rightarrow> l);
          offset = (case offset options of None \<Rightarrow> 0 | Some off \<Rightarrow> off);
          filtered0 = entries st;
          filtered1 =
            (case category_opt options of
               None \<Rightarrow> filtered0
             | Some category' \<Rightarrow>
                 if category' \<noteq> [] \<and> category' \<noteq> ''all''
                 then filter (\<lambda>entry.
                        case EntryDraft.category entry of
                          None \<Rightarrow> False
                        | Some c \<Rightarrow> toLowerCase c = toLowerCase category') filtered0
                 else filtered0);
          filtered2 =
            (case contentType_opt options of
               None \<Rightarrow> filtered1
             | Some contentType' \<Rightarrow>
                 if contentType' \<noteq> []
                 then filter (\<lambda>entry. formatName (format entry) = contentType') filtered1
                 else filtered1);
          filtered =
            (case searchQuery options of
               None \<Rightarrow> filtered2
             | Some searchQuery' \<Rightarrow>
                 if searchQuery' \<noteq> []
                 then (let query = toLowerCase searchQuery'
                       in filter (\<lambda>entry.
                            includes_str (toLowerCase (content entry)) query
                            \<or> optIncludes toLowerCase (preview entry) query
                            \<or> optIncludes toLowerCase (EntryDraft.category entry) query
                            \<or> optIncludes toLowerCase (note_entry entry) query) filtered2)
                 else filtered2);
          pinnedEntries = sortNewestFirst (filter (\<lambda>entry. isPinned entry) filtered);
          nonPinnedEntries = sortNewestFirst (filter (\<lambda>entry. \<not> isPinned entry) filtered);
          limitedNonPinned = slice offset (offset + limit) nonPinnedEntries
      in pinnedEntries @ limitedNonPinned)"

subsection \<open>Update, delete, pin\<close>

text \<open>
  \<open>Partial<ClipboardEntry>\<close>: each field may be absent (\<open>None\<close>). A patch of \<open>id\<close>,
  \<open>createdAt\<close> or \<open>updatedAt\<close> is overwritten by the last argument of
  \<open>Object.assign\<close>, so the record leaves these three out.
\<close>

record EntryUpdates =
  content_upd :: "string option"
  contentType_upd :: "string option"
  format_upd :: "format option"
  preview_upd :: "string option option"
  filePath_upd :: "string option option"
  appName_upd :: "string option option"
  isPinned_upd :: "bool option"
  isFavorite_upd :: "bool option"
  category_upd :: "string option option"
  tags_upd :: "string list option"
  usageCount_upd :: "int option"
  lastUsedAt_upd :: "int option option"
  note_upd :: "string option option"

definition assignField :: "'a option \<Rightarrow> 'a \<Rightarrow> 'a" where
  "assignField u old = (case u of None \<Rightarrow> old | Some v \<Rightarrow> v)"

definition assignUpdates :: "EntryUpdates \<Rightarrow> int \<Rightarrow> ClipboardEntry \<Rightarrow> ClipboardEntry" where
  "assignUpdates updates now entry =
     entry\<lparr>content := assignField (content_upd updates) (content entry),
           contentType := assignField (contentType_upd updates) (contentType entry),
           format := assignField (format_upd updates) (format entry),
           preview := assignField (preview_upd updates) (preview entry),
           filePath := assignField (filePath_upd updates) (filePath entry),
           appName := assignField (appName_upd updates) (appName entry),
           isPinned := assignField (isPinned_upd updates) (isPinned entry),
           isFavorite := assignField (isFavorite_upd updates) (isFavorite entry),
           category := assignField (category_upd updates) (category entry),
           tags := assignField (tags_upd updates) (tags entry),
           usageCount := assignField (usageCount_upd updates) (usageCount entry),
           lastUsedAt := assignField (lastUsedAt_upd updates) (lastUsedAt entry),
           note_entry := assignField (note_upd updates) (note_entry entry),
           updatedAt := now\<rparr>"

text \<open>\<open>Array.prototype.findIndex\<close>: the first index that satisfies \<open>P\<close>, or -1.\<close>

fun findIndex :: "('a \<Rightarrow> bool) \<Rightarrow> 'a list \<Rightarrow> int" where
  "findIndex P [] = - 1"
| "findIndex P (x # xs) =
     (if P x then 0 else (let i = findIndex P xs in if i = - 1 then - 1 else i + 1))"

text \<open>
  The entry objects are shared between the array and the caller: \<open>Object.assign\<close> and
  the assignments of \<open>pinClipboardEntry\<close> change the object in the array. The object
  that \<open>find\<close> returns is the one at the first index holding the id. \<open>None\<close> is the
  source's \<open>null\<close>.
\<close>

definition updateClipboardEntry ::
  "int \<Rightarrow> EntryUpdates \<Rightarrow> int \<Rightarrow> JsonStorageManager
     \<Rightarrow> ClipboardEntry option \<times> JsonStorageManager" where
  "updateClipboardEntry i updates now st =
     (let entryIndex = findIndex (\<lambda>e. id_entry e = i) (entries st)
      in if entryIndex = - 1 then (None, st)
         else (let entry = assignUpdates updates now (entries st ! nat entryIndex)
               in (Some entry,
                   debouncedSave (st\<lparr>entries := (entries st)[nat entryIndex := entry]\<rparr>))))"

definition deleteClipboardEntry ::
  "int \<Rightarrow> JsonStorageManager \<Rightarrow> bool \<times> JsonStorageManager" where
  "deleteClipboardEntry i st =
     (let initialLength = length (entries st);
          st1 = st\<lparr>entries := filter (\<lambda>e. id_entry e \<noteq> i) (entries st)\<rparr>
      in if length (entries st1) < initialLength then (True, debouncedSave st1)
         else (False, st1))"

definition pinClipboardEntry ::
  "int \<Rightarrow> int \<Rightarrow> JsonStorageManager \<Rightarrow> ClipboardEntry option \<times> JsonStorageManager" where
  "pinClipboardEntry i now st =
     (case find (\<lambda>e. id_entry e = i) (entries st) of
        None \<Rightarrow> (None, st)
      | Some found \<Rightarrow>
          (let entry = found\<lparr>isPinned := \<not> isPinned found, updatedAt := now\<rparr>;
               entryIndex = findIndex (\<lambda>e. id_entry e = i) (entries st)
           in (Some entry,
               debouncedSave (st\<lparr>entries := (entries st)[nat entryIndex := entry]\<rparr>))))"

definition clearClipboardHistory :: "JsonStorageManager \<Rightarrow> bool \<times> JsonStorageManager" where
  "clearClipboardHistory st =
     (let initialLength = length (entries st);
          st1 = st\<lparr>entries := filter (\<lambda>e. isPinned e) (entries st)\<rparr>
      in if length (entries st1) < initialLength then (True, debouncedSave st1)
         else (False, st1))"

section \<open>The classifier (ClipboardMonitor)\<close>

text \<open>
  The four detectors test the content against regular expressions (and the URL parser);
  the two extractors strip markup with regular expressions. They are parameters of the
  model, so every result below holds for whatever they compute.
\<close>

record Detectors =
  isURL :: "string \<Rightarrow> bool"
  isEmail :: "string \<Rightarrow> bool"
  isPhoneNumber :: "string \<Rightarrow> bool"
  isCode :: "string \<Rightarrow> bool"

record Extractors =
  extractCleanTextFromHTML :: "string \<Rightarrow> string"
  extractTextFromRTF :: "string \<Rightarrow> string"

definition detectContentType :: "Detectors \<Rightarrow> string \<Rightarrow> format \<Rightarrow> string" where
  "detectContentType dets content' format' =
     (if format' = Image then ''image''
      else if format' = File then ''file''
      else if format' = Html then ''rich-text''
      else if format' = Rtf then ''rich-text''
      else if isURL dets content' then ''url''
      else if isEmail dets content' then ''email''
      else if isPhoneNumber dets content' then ''phone''
      else if isCode dets content' then ''code''
      else ''text'')"

text \<open>\<open>s.substring(0, n)\<close> for \<open>n \<ge> 0\<close> is the first \<open>n\<close> characters of \<open>s\<close>.\<close>

definition generatePreview :: "Extractors \<Rightarrow> string \<Rightarrow> format \<Rightarrow> string" where
  "generatePreview ext content' format' =
     (if format' = Image then ''[Image]''
      else if format' = File then ''[File]''
      else if format' = Html then
        (let plainText = extractCleanTextFromHTML ext content'
         in if length plainText > 100 then take 100 plainText @ ''...''
            else if plainText \<noteq> [] then plainText else ''[Rich Text]'')
      else if format' = Rtf then
        (let plainText = extractTextFromRTF ext content'
         in if length plainText > 100 then take 100 plainText @ ''...''
            else if plainText \<noteq> [] then plainText else ''[Rich Text]'')
      else if length content' > 100 then take 100 content' @ ''...''
      else content')"

text \<open>
  What \<open>await this.settingsManager.get(key)\<close> does: it returns the stored value
  (\<open>None\<close> for \<open>undefined\<close>) or it throws. The Settings interface types
  \<open>autoCategories\<close> as boolean and \<open>maxHistoryItems\<close> as number.
\<close>

datatype 'a attempt = Returns 'a | Throws

definition asyncCategorizeContent ::
  "Detectors \<Rightarrow> bool option attempt \<Rightarrow> string \<Rightarrow> format \<Rightarrow> string" where
  "asyncCategorizeContent dets getAutoCategories content' format' =
     (if format' = Html \<or> format' = Rtf then ''Rich Text''
      else if format' = Image then ''Images''
      else if format' = File then ''Files''
      else (case getAutoCategories of
              Throws \<Rightarrow> (if format' = Html \<or> format' = Rtf then ''Rich Text'' else ''Text'')
            | Returns autoCategories \<Rightarrow>
                if autoCategories = Some False then ''Uncategorized''
                else (let contentType = detectContentType dets content' format'
                      in if contentType = ''rich-text'' then ''Rich Text''
                         else if contentType = ''url'' then ''URLs''
                         else if contentType = ''email'' then ''Email Addresses''
                         else if contentType = ''phone'' then ''Phone Numbers''
                         else if contentType = ''code'' then ''Code''
                         else ''Text'')))"

text \<open>
  \<open>handleClipboardChange(format, content)\<close>: builds the draft and inserts it. An exception
  inside is caught and logged, and nothing is inserted (\<open>None\<close>).
  \<open>(await get('maxHistoryItems')) || 40\<close> replaces \<open>undefined\<close> and 0 by 40.
\<close>

definition handleClipboardChange ::
  "Detectors \<Rightarrow> Extractors \<Rightarrow> bool option attempt \<Rightarrow> int option attempt
     \<Rightarrow> format \<Rightarrow> string \<Rightarrow> int \<Rightarrow> int \<Rightarrow> JsonStorageManager
     \<Rightarrow> ClipboardEntry option \<times> JsonStorageManager" where
  "handleClipboardChange dets ext getAutoCategories getMaxHistoryItems format' content'
       now1 now2 st =
     (let entry = \<lparr>content = content',
                    contentType = detectContentType dets content' format',
                    format = format',
                    preview = Some (generatePreview ext content' format'),
                    filePath = None,
                    appName = Some ''Unknown App'',
                    isPinned = False,
                    isFavorite = False,
                    category = Some (asyncCategorizeContent dets getAutoCategories content' format'),
                    tags = [],
                    usageCount = 0,
                    lastUsedAt = None,
                    note_entry = None\<rparr>
      in case getMaxHistoryItems of
           Throws \<Rightarrow> (None, st)
         | Returns v \<Rightarrow>
             (let maxHistoryItems = (case v of None \<Rightarrow> 40 | Some m \<Rightarrow> if m = 0 then 40 else m);
                  (savedEntry, st') = addClipboardEntry entry (Some maxHistoryItems) now1 now2 st
              in (Some savedEntry, st')))"

section \<open>The settings handler (src/main/index.ts, setupIPC)\<close>

text \<open>
  A value of a setting: the numbers and the booleans of the Settings interface (its
  strings and string lists are left out). \<open>Math.min(100, value)\<close> reads a boolean as 1
  or 0.
\<close>

datatype settingValue = NumberV int | BooleanV bool

fun toNumber :: "settingValue \<Rightarrow> int" where
  "toNumber (NumberV n) = n"
| "toNumber (BooleanV b) = (if b then 1 else 0)"

text \<open>
  The collaborators of the \<open>settings:set\<close> handler. The settings manager is its own
  object (\<open>new SettingsManager()\<close>): \<open>set\<close> writes to its own store, the state
  \<open>'s\<close>, and throws when that store does. The three update
  methods work on the rest of the application, \<open>'x\<close>. Each may throw. None of them is
  given the storage manager.
\<close>

record ('s, 'x) Collaborators =
  settingsSet :: "string \<Rightarrow> settingValue \<Rightarrow> 's \<Rightarrow> 's attempt"
  updateAutoStart :: "settingValue \<Rightarrow> 'x \<Rightarrow> 'x attempt"
  updateClipboardMonitoring :: "settingValue \<Rightarrow> 'x \<Rightarrow> 'x attempt"
  updateDockVisibility :: "settingValue \<Rightarrow> 'x \<Rightarrow> 'x attempt"

record ('s, 'x) App =
  storageManager :: JsonStorageManager
  settingsManager :: 's
  shell :: 'x

text \<open>
  The handler of \<open>settings:set\<close>. \<open>Throws\<close>: the promise is rejected, with the state
  reached so far.
\<close>

definition settingsSetHandler ::
  "('s, 'x) Collaborators \<Rightarrow> string \<Rightarrow> settingValue \<Rightarrow> ('s, 'x) App
     \<Rightarrow> (bool attempt) \<times> ('s, 'x) App" where
  "settingsSetHandler co key v app =
     (case settingsSet co key v (settingsManager app) of
        Throws \<Rightarrow> (Throws, app)
      | Returns s' \<Rightarrow>
          (let app1 = app\<lparr>settingsManager := s'\<rparr>
           in if key = ''autoStart'' then
                (case updateAutoStart co v (shell app1) of
                   Throws \<Rightarrow> (Throws, app1)
                 | Returns x' \<Rightarrow> (Returns True, app1\<lparr>shell := x'\<rparr>))
              else if key = ''monitorClipboard'' then
                (case updateClipboardMonitoring co v (shell app1) of
                   Throws \<Rightarrow> (Throws, app1)
                 | Returns x' \<Rightarrow> (Returns True, app1\<lparr>shell := x'\<rparr>))
              else if key = ''hideFromDock'' then
                (case updateDockVisibility co v (shell app1) of
                   Throws \<Rightarrow> (Throws, app1)
                 | Returns x' \<Rightarrow> (Returns True, app1\<lparr>shell := x'\<rparr>))
              else if key = ''maxHistoryItems'' then
                (Returns True,
                 app1\<lparr>storageManager :=
                        enforceHistoryLimit (toNumber v) (storageManager app1)\<rparr>)
              else (Returns True, app1)))"

section \<open>Statements of the specification\<close>

text \<open>The entries an operation removed: those of the old store that the new one lacks.\<close>

definition removedBy :: "JsonStorageManager \<Rightarrow> JsonStorageManager \<Rightarrow> ClipboardEntry list" where
  "removedBy st st' = filter (\<lambda>e. e \<notin> set (entries st')) (entries st)"

text \<open>
  Eviction as the specification words it, for the store \<open>st\<close> before and \<open>st'\<close> after:
  no pinned entry is removed; when the non-pinned count exceeds the clamped limit \<open>L\<close>,
  exactly count - \<open>L\<close> entries are removed, all of them non-pinned and none newer than a
  non-pinned entry that is kept, and \<open>L\<close> non-pinned entries are kept; otherwise nothing
  changes.
\<close>

definition evictsOldest :: "int \<Rightarrow> JsonStorageManager \<Rightarrow> JsonStorageManager \<Rightarrow> bool" where
  "evictsOldest M st st' =
     (let L = clampedLimit M;
          nonPinned = filter (\<lambda>e. \<not> isPinned e) (entries st);
          kept = filter (\<lambda>e. \<not> isPinned e) (entries st');
          removed = removedBy st st'
      in filter isPinned (entries st') = filter isPinned (entries st)
         \<and> (if int (length nonPinned) > L
             then mset (entries st) = mset (entries st') + mset removed
                \<and> int (length removed) = int (length nonPinned) - L
                \<and> int (length kept) = L
                \<and> (\<forall>r \<in> set removed. \<not> isPinned r
                      \<and> (\<forall>k \<in> set kept. createdAt r \<le> createdAt k))
             else st' = st))"

text \<open>An entry with the given id, creation time and pin flag, for concrete stores.\<close>

definition mkEntry :: "int \<Rightarrow> int \<Rightarrow> bool \<Rightarrow> ClipboardEntry" where
  "mkEntry i t p =
     EntryDraft.extend ((textDraft ''x'')\<lparr>isPinned := p\<rparr>) (ClipboardEntry.fields i t t)"

text \<open>
  A store as \<open>loadData\<close> builds it from a file in which two records have no \<open>id\<close>:
  \<open>validateEntry\<close> gives both the id 0. One of them is pinned, the other is the oldest of
  21 non-pinned entries.
\<close>

definition dupIdStorage :: JsonStorageManager where
  "dupIdStorage =
     \<lparr>entries = map (\<lambda>i. mkEntry i i False) (rev [0..20]) @ [mkEntry 0 0 True],
      nextId = 21, saveScheduled = False\<rparr>"

text \<open>
  A store with distinct ids, most recent first: 21 non-pinned entries and, oldest of all,
  one pinned entry.
\<close>

definition fullStorage :: JsonStorageManager where
  "fullStorage =
     \<lparr>entries = map (\<lambda>i. mkEntry i i False) (rev [2..22]) @ [mkEntry 1 1 True],
      nextId = 23, saveScheduled = False\<rparr>"

subsection \<open>The query, as the specification words it\<close>

text \<open>
  Case-insensitive comparison, for a case folding \<open>lc\<close>: two strings are equal up to
  case when their foldings are equal, and \<open>q\<close> is a substring of \<open>s\<close> up to case when
  the folding of \<open>s\<close> is some prefix, then the folding of \<open>q\<close>, then some suffix.
\<close>

definition ciEqual :: "(string \<Rightarrow> string) \<Rightarrow> string \<Rightarrow> string \<Rightarrow> bool" where
  "ciEqual lc a b = (lc a = lc b)"

definition ciSubstring :: "(string \<Rightarrow> string) \<Rightarrow> string \<Rightarrow> string \<Rightarrow> bool" where
  "ciSubstring lc q s = sublist (lc q) (lc s)"

definition optCiSubstring :: "(string \<Rightarrow> string) \<Rightarrow> string \<Rightarrow> string option \<Rightarrow> bool" where
  "optCiSubstring lc q field =
     (case field of None \<Rightarrow> False | Some s \<Rightarrow> ciSubstring lc q s)"

text \<open>\<open>q\<close> is a case-insensitive substring of the content, preview, category or note.\<close>

definition searchMatch :: "(string \<Rightarrow> string) \<Rightarrow> string \<Rightarrow> ClipboardEntry \<Rightarrow> bool" where
  "searchMatch lc q e =
     (ciSubstring lc q (content e) \<or> optCiSubstring lc q (preview e)
      \<or> optCiSubstring lc q (category e) \<or> optCiSubstring lc q (note_entry e))"

text \<open>
  An entry matches the filters of a query: the category filter (case-insensitive exact
  match, \<open>all\<close> filters nothing), the contentType/format filter, and the free-text
  search. An option that is the empty string counts as absent, as in the source.
\<close>

definition matchesFilters ::
  "(string \<Rightarrow> string) \<Rightarrow> GetHistoryOptions \<Rightarrow> ClipboardEntry \<Rightarrow> bool" where
  "matchesFilters lc options e =
     ((case category_opt options of
         None \<Rightarrow> True
       | Some c \<Rightarrow> c = [] \<or> c = ''all''
                   \<or> (case category e of None \<Rightarrow> False | Some ec \<Rightarrow> ciEqual lc ec c))
      \<and> (case contentType_opt options of
            None \<Rightarrow> True
          | Some t \<Rightarrow> t = [] \<or> formatName (format e) = t)
      \<and> (case searchQuery options of
            None \<Rightarrow> True
          | Some q \<Rightarrow> q = [] \<or> searchMatch lc q e))"

definition newestFirst :: "ClipboardEntry list \<Rightarrow> bool" where
  "newestFirst xs = sorted_wrt (\<lambda>a b. createdAt b \<le> createdAt a) xs"

definition limitOf :: "GetHistoryOptions \<Rightarrow> int" where
  "limitOf options = (case limit options of None \<Rightarrow> 100 | Some l \<Rightarrow> l)"

definition offsetOf :: "GetHistoryOptions \<Rightarrow> int" where
  "offsetOf options = (case offset options of None \<Rightarrow> 0 | Some off \<Rightarrow> off)"

text \<open>The options of \<open>query({searchQuery: q})\<close>, and of a query with no option.\<close>

definition noOptions :: GetHistoryOptions where
  "noOptions = \<lparr>limit = None, offset = None, category_opt = None, contentType_opt = None,
     dateRange = None, searchQuery = None\<rparr>"


definition pinnedMatches ::
  "(string \<Rightarrow> string) \<Rightarrow> GetHistoryOptions \<Rightarrow> JsonStorageManager \<Rightarrow> ClipboardEntry list" where
  "pinnedMatches lc options st =
     filter (\<lambda>e. isPinned e \<and> matchesFilters lc options e) (entries st)"

definition nonPinnedMatches ::
  "(string \<Rightarrow> string) \<Rightarrow> GetHistoryOptions \<Rightarrow> JsonStorageManager \<Rightarrow> ClipboardEntry list" where
  "nonPinnedMatches lc options st =
     filter (\<lambda>e. \<not> isPinned e \<and> matchesFilters lc options e) (entries st)"


subsection \<open>Concrete inputs for the examples\<close>

text \<open>
  A stand-in for the case folding in the examples: it folds the letters A to Z and keeps
  every other character. The theorems do not use it.
\<close>

definition asciiLowerChar :: "char \<Rightarrow> char" where
  "asciiLowerChar c =
     (let n = (of_char c :: nat) in if 65 \<le> n \<and> n \<le> 90 then char_of (n + 32) else c)"

definition asciiLower :: "string \<Rightarrow> string" where
  "asciiLower s = map asciiLowerChar s"



text \<open>
  The store of the repository's query test: a pinned entry, then two regular ones, each
  inserted with the default limit.
\<close>

definition testStorage :: JsonStorageManager where
  "testStorage =
     addAll 40 [((textDraft ''Pinned item'')\<lparr>isPinned := True\<rparr>, 1, 1),
                (textDraft ''Regular item 1'', 2, 2),
                (textDraft ''Regular item 2'', 3, 3)] emptyStorage"

subsection \<open>The classifier, as the specification words it\<close>

text \<open>The content type that a format fixes, whatever the content.\<close>

fun fixedContentType :: "format \<Rightarrow> string option" where
  "fixedContentType Image = Some ''image''"
| "fixedContentType File = Some ''file''"
| "fixedContentType Html = Some ''rich-text''"
| "fixedContentType Rtf = Some ''rich-text''"
| "fixedContentType Text = None"

text \<open>
  The detectors in the order URL, email, phone, code, each with its content type; the
  type of the first detector that matches, and \<open>text\<close> when none does.
\<close>

definition detectorsInOrder :: "Detectors \<Rightarrow> ((string \<Rightarrow> bool) \<times> string) list" where
  "detectorsInOrder dets =
     [(isURL dets, ''url''), (isEmail dets, ''email''),
      (isPhoneNumber dets, ''phone''), (isCode dets, ''code'')]"

definition firstMatch :: "((string \<Rightarrow> bool) \<times> string) list \<Rightarrow> string \<Rightarrow> string" where
  "firstMatch table s =
     (case find (\<lambda>(p, t). p s) table of None \<Rightarrow> ''text'' | Some (p, t) \<Rightarrow> t)"

text \<open>Concrete collaborators for the examples.\<close>

definition noStripping :: Extractors where
  "noStripping = \<lparr>extractCleanTextFromHTML = (\<lambda>s. s), extractTextFromRTF = (\<lambda>s. s)\<rparr>"

definition schemeDetectors :: Detectors where
  "schemeDetectors = \<lparr>isURL = (\<lambda>s. prefix ''https://'' s), isEmail = (\<lambda>s. CHR ''@'' \<in> set s),
     isPhoneNumber = (\<lambda>s. False), isCode = (\<lambda>s. False)\<rparr>"

definition mapCollaborators :: "(string \<rightharpoonup> settingValue, unit) Collaborators" where
  "mapCollaborators =
     \<lparr>settingsSet = (\<lambda>k v s. Returns (s(k \<mapsto> v))),
      updateAutoStart = (\<lambda>v x. Returns x),
      updateClipboardMonitoring = (\<lambda>v x. Returns x),
      updateDockVisibility = (\<lambda>v x. Returns x)\<rparr>"

definition fullApp :: "(string \<rightharpoonup> settingValue, unit) App" where
  "fullApp = \<lparr>storageManager = fullStorage, settingsManager = Map.empty, shell = ()\<rparr>"

text \<open>
  A store with two entries: an image and, older, a URL copied as plain text (its format
  is \<open>text\<close>, its content type \<open>url\<close>).
\<close>

definition urlStorage :: JsonStorageManager where
  "urlStorage =
     \<lparr>entries = [(mkEntry 2 2 False)\<lparr>content := ''data:image/png;base64,AAAA'',
                    contentType := ''image'', format := Image, preview := Some ''[Image]'',
                    category := Some ''Images''\<rparr>,
                  (mkEntry 1 1 False)\<lparr>content := ''https://example.com/path?x=1'',
                    contentType := ''url'', category := Some ''URLs''\<rparr>],
      nextId = 3, saveScheduled = False\<rparr>"

text \<open>The patch \<open>{ note }\<close> of the \<open>clipboard:updateNote\<close> handler.\<close>

definition noteUpdate :: "string \<Rightarrow> EntryUpdates" where
  "noteUpdate s = \<lparr>content_upd = None, contentType_upd = None, format_upd = None,
     preview_upd = None, filePath_upd = None, appName_upd = None, isPinned_upd = None,
     isFavorite_upd = None, category_upd = None, tags_upd = None, usageCount_upd = None,
     lastUsedAt_upd = None, note_upd = Some (Some s)\<rparr>"

text \<open>A query with the contentType option only.\<close>

definition contentTypeQuery :: "string \<Rightarrow> GetHistoryOptions" where
  "contentTypeQuery t = noOptions\<lparr>contentType_opt := Some t\<rparr>"

section \<open>Eviction\<close>

lemma clampedLimit_ge: "20 \<le> clampedLimit M"
  by (simp add: clampedLimit_def)

lemma clampedLimit_le: "clampedLimit M \<le> 100"
  by (simp add: clampedLimit_def)

lemma clampedLimit_id: "20 \<le> M \<Longrightarrow> M \<le> 100 \<Longrightarrow> clampedLimit M = M"
  by (simp add: clampedLimit_def)

lemma length_slice_prefix:
  "0 \<le> k \<Longrightarrow> k \<le> int (length xs) \<Longrightarrow> slice 0 k xs = take (nat k) xs"
  by (simp add: slice_def Let_def min_def)

lemma length_sortOldestFirst [simp]: "length (sortOldestFirst xs) = length xs"
  by (simp add: sortOldestFirst_def)

lemma mset_sortOldestFirst [simp]: "mset (sortOldestFirst xs) = mset xs"
  by (simp add: sortOldestFirst_def)

lemma set_sortOldestFirst [simp]: "set (sortOldestFirst xs) = set xs"
  by (simp add: sortOldestFirst_def)

text \<open>Removing every entry whose id is among the ids of \<open>ds\<close> removes at least \<open>ds\<close>.\<close>

lemma filter_ids_le:
  assumes "mset ds \<subseteq># mset (filter P xs)"
  shows "length (filter P (filter (\<lambda>e. f e \<notin> f ` set ds) xs)) + length ds
           \<le> length (filter P xs)"
proof -
  let ?Q = "\<lambda>e. f e \<in> f ` set ds"
  let ?keep = "filter (\<lambda>e. \<not> ?Q e) (filter P xs)"
  let ?drop = "filter ?Q (filter P xs)"
  have "filter_mset ?Q (mset ds) = filter_mset (\<lambda>_. True) (mset ds)"
    by (rule filter_mset_cong) auto
  then have "mset ds = filter_mset ?Q (mset ds)"
    by simp
  also have "\<dots> \<subseteq># filter_mset ?Q (mset (filter P xs))"
    using assms by (rule multiset_filter_mono)
  also have "\<dots> = mset ?drop"
    by (simp only: mset_filter)
  finally have "size (mset ds) \<le> size (mset ?drop)"
    by (rule size_mset_mono)
  then have "length ds \<le> length ?drop"
    by (simp only: size_mset)
  moreover have "length ?drop + length ?keep = length (filter P xs)"
    by (rule sum_length_filter_compl)
  moreover have "filter P (filter (\<lambda>e. \<not> ?Q e) xs) = ?keep"
    by (simp add: conj_commute)
  ultimately show ?thesis by simp
qed

lemma enforceHistoryLimit_within:
  assumes "int (length (filter (\<lambda>e. \<not> isPinned e) (entries st))) \<le> clampedLimit M"
  shows "enforceHistoryLimit M st = st"
proof -
  have "\<not> clampedLimit M < int (length (filter (\<lambda>e. \<not> isPinned e) (entries st)))"
    using assms by (simp only: not_less)
  then show ?thesis
    unfolding enforceHistoryLimit_def Let_def by (simp only: if_False)
qed

lemma enforceHistoryLimit_exceeds:
  assumes "int (length (filter (\<lambda>e. \<not> isPinned e) (entries st))) > clampedLimit M"
  shows "entries (enforceHistoryLimit M st) =
     filter (\<lambda>e. id_entry e \<notin> id_entry ` set
        (take (nat (int (length (filter (\<lambda>e. \<not> isPinned e) (entries st))) - clampedLimit M))
           (sortOldestFirst (filter (\<lambda>e. \<not> isPinned e) (entries st))))) (entries st)"
proof -
  let ?np = "filter (\<lambda>e. \<not> isPinned e) (entries st)"
  let ?k = "int (length ?np) - clampedLimit M"
  have "0 \<le> ?k" "?k \<le> int (length (sortOldestFirst ?np))"
    using assms clampedLimit_ge [of M] by simp_all
  then have sl: "slice 0 ?k (sortOldestFirst ?np) = take (nat ?k) (sortOldestFirst ?np)"
    by (rule length_slice_prefix)
  have "enforceHistoryLimit M st =
      st\<lparr>entries := filter (\<lambda>e. id_entry e \<notin> id_entry ` set (take (nat ?k) (sortOldestFirst ?np)))
         (entries st)\<rparr>"
    unfolding enforceHistoryLimit_def Let_def
    by (simp only: assms if_True sl set_map)
  then show ?thesis
    by simp
qed

lemma mset_take_subseteq: "mset (take n xs) \<subseteq># mset xs"
  by (metis append_take_drop_id mset_append mset_subset_eq_add_left)

lemma enforceHistoryLimit_bound:
  "int (getNonPinnedEntryCount (enforceHistoryLimit M st)) \<le> clampedLimit M"
proof -
  let ?np = "filter (\<lambda>e. \<not> isPinned e) (entries st)"
  define L where "L = clampedLimit M"
  show ?thesis
  proof (cases "int (length ?np) > L")
    case False
    then have le: "int (length ?np) \<le> clampedLimit M"
      unfolding L_def by (simp only: not_less)
    then have "enforceHistoryLimit M st = st"
      by (rule enforceHistoryLimit_within)
    with le show ?thesis
      unfolding getNonPinnedEntryCount_def by (simp only:)
  next
    case True
    let ?ds = "take (nat (int (length ?np) - L)) (sortOldestFirst ?np)"
    have eq: "entries (enforceHistoryLimit M st)
        = filter (\<lambda>e. id_entry e \<notin> id_entry ` set ?ds) (entries st)"
      using True unfolding L_def by (rule enforceHistoryLimit_exceeds)
    have "mset ?ds \<subseteq># mset (sortOldestFirst ?np)"
      by (rule mset_take_subseteq)
    then have sub: "mset ?ds \<subseteq># mset ?np" by simp
    have "20 \<le> L" unfolding L_def by (rule clampedLimit_ge)
    then have len: "length ?ds = nat (int (length ?np) - L)" by simp
    have "length (filter (\<lambda>e. \<not> isPinned e)
            (filter (\<lambda>e. id_entry e \<notin> id_entry ` set ?ds) (entries st))) + length ?ds
          \<le> length ?np"
      using sub by (rule filter_ids_le)
    then have "int (length (filter (\<lambda>e. \<not> isPinned e) (entries (enforceHistoryLimit M st))))
         \<le> L"
      unfolding eq len using True by linarith
    then show ?thesis
      unfolding getNonPinnedEntryCount_def L_def .
  qed
qed

lemma addClipboardEntry_bound:
  assumes "\<not> isPinned d"
  shows "int (getNonPinnedEntryCount (snd (addClipboardEntry d (Some M) t1 t2 st)))
           \<le> clampedLimit M"
proof -
  have "getNonPinnedEntryCount (debouncedSave s) = getNonPinnedEntryCount s" for s
    by (simp add: debouncedSave_def getNonPinnedEntryCount_def)
  then show ?thesis
    using assms enforceHistoryLimit_bound
    by (simp add: addClipboardEntry_def Let_def)
qed

lemma addAll_snoc:
  "addAll M (ds @ [(d, t1, t2)]) st =
     snd (addClipboardEntry d (Some M) t1 t2 (addAll M ds st))"
  by (induction ds arbitrary: st) auto

text \<open>
  C1. Eviction invariant: in every sequence of inserts made with one limit \<open>M\<close> between 20
  and 100, from any store, the store holds at most \<open>M\<close> non-pinned entries right after
  each insert of a non-pinned draft (every prefix of the sequence that ends with such an
  insert is covered by \<open>ds @ [(d, t1, t2)]\<close>).
\<close>

theorem C1_eviction_invariant:
  assumes "20 \<le> M" and "M \<le> 100" and "\<not> isPinned d"
  shows "int (getNonPinnedEntryCount (addAll M (ds @ [(d, t1, t2)]) st)) \<le> M"
proof -
  have "int (getNonPinnedEntryCount (addAll M (ds @ [(d, t1, t2)]) st))
          \<le> clampedLimit M"
    unfolding addAll_snoc using assms(3) by (rule addClipboardEntry_bound)
  with assms(1,2) show ?thesis by (simp add: clampedLimit_id)
qed

theorem C1_eviction_invariant_witness:
  "(20::int) \<le> 20 \<and> (20::int) \<le> 100 \<and> \<not> isPinned (textDraft ''x'')
   \<and> int (getNonPinnedEntryCount
        (addAll 20 (replicate 21 (textDraft ''y'', 5, 5) @ [(textDraft ''x'', 7, 7)])
           emptyStorage)) \<le> 20"
proof -
  have h: "\<not> isPinned (textDraft ''x'')" by (simp add: textDraft_def)
  show ?thesis
    using h C1_eviction_invariant [of 20 "textDraft ''x''"
        "replicate 21 (textDraft ''y'', 5, 5)" 7 7 emptyStorage]
    by simp
qed

lemma id_mem_iff:
  assumes "distinct (map f xs)" "set ds \<subseteq> set xs" "e \<in> set xs"
  shows "f e \<in> f ` set ds \<longleftrightarrow> e \<in> set ds"
proof -
  have "inj_on f (set xs)" using assms(1) by (simp add: distinct_map)
  then show ?thesis using assms(2,3) by (auto dest: inj_onD)
qed

lemma filter_ids_eq:
  assumes "distinct (map f xs)" "set ds \<subseteq> set xs"
  shows "filter (\<lambda>e. f e \<notin> f ` set ds) xs = filter (\<lambda>e. e \<notin> set ds) xs"
  by (rule filter_cong [OF refl]) (simp add: id_mem_iff [OF assms])

lemma sorted_take_le_drop:
  assumes "sorted (map f ys)" "r \<in> set (take n ys)" "k \<in> set (drop n ys)"
  shows "f r \<le> f k"
proof -
  have "sorted (map f (take n ys) @ map f (drop n ys))"
    using assms(1) by (simp flip: map_append)
  then show ?thesis using assms(2,3) by (auto simp: sorted_append)
qed

text \<open>
  In a store whose entries have pairwise distinct ids, eviction with any limit \<open>M\<close>
  removes no pinned entry; when the non-pinned count exceeds the clamped limit \<open>L\<close> it
  removes exactly count - \<open>L\<close> entries, all non-pinned and each no newer (by
  \<open>createdAt\<close>) than every non-pinned entry it keeps, and it keeps \<open>L\<close> non-pinned
  entries; otherwise it changes nothing.
\<close>

lemma enforceHistoryLimit_fifo_distinct_ids:
  assumes D: "distinct (map id_entry (entries st))"
  shows "evictsOldest M st (enforceHistoryLimit M st)"
proof -
  let ?xs = "entries st"
  let ?np = "filter (\<lambda>e. \<not> isPinned e) ?xs"
  define L where "L = clampedLimit M"
  show ?thesis
  proof (cases "int (length ?np) > L")
    case False
    then have le: "int (length ?np) \<le> clampedLimit M"
      unfolding L_def by (simp only: not_less)
    then have "enforceHistoryLimit M st = st"
      by (rule enforceHistoryLimit_within)
    moreover have "\<not> clampedLimit M < int (length ?np)"
      using le by (simp only: not_less)
    ultimately show ?thesis
      unfolding evictsOldest_def Let_def by (simp only: if_False simp_thms)
  next
    case True
    define k where "k = nat (int (length ?np) - L)"
    define srt where "srt = sortOldestFirst ?np"
    define ds where "ds = take k srt"
    have "20 \<le> L" unfolding L_def by (rule clampedLimit_ge)
    have kle: "k \<le> length ?np" unfolding k_def using \<open>20 \<le> L\<close> by simp
    have dx: "distinct ?xs" using D by (rule distinct_map [THEN iffD1, THEN conjunct1])
    have dsrt: "distinct srt" unfolding srt_def sortOldestFirst_def using dx by simp
    have ssrt: "set srt = set ?np" unfolding srt_def by simp
    have sub: "set ds \<subseteq> set ?xs"
      unfolding ds_def using ssrt by (auto dest: in_set_takeD)
    have eq0: "entries (enforceHistoryLimit M st)
        = filter (\<lambda>e. id_entry e \<notin> id_entry ` set ds) ?xs"
      unfolding ds_def k_def srt_def L_def
      using True unfolding L_def by (rule enforceHistoryLimit_exceeds)
    have eq: "entries (enforceHistoryLimit M st) = filter (\<lambda>e. e \<notin> set ds) ?xs"
      unfolding eq0 using D sub by (rule filter_ids_eq)
    have np_ds: "\<not> isPinned e" if "e \<in> set ds" for e
      using that ssrt unfolding ds_def by (auto dest: in_set_takeD)
    have pinned: "filter isPinned (entries (enforceHistoryLimit M st)) = filter isPinned ?xs"
      unfolding eq filter_filter by (rule filter_cong [OF refl]) (auto dest: np_ds)
    have rem: "removedBy st (enforceHistoryLimit M st) = filter (\<lambda>e. e \<in> set ds) ?xs"
      unfolding removedBy_def eq by (rule filter_cong [OF refl]) simp
    have part: "mset ?xs = mset (entries (enforceHistoryLimit M st))
         + mset (removedBy st (enforceHistoryLimit M st))"
      unfolding eq rem by (simp add: union_commute)
    have "mset (filter (\<lambda>e. e \<in> set ds) ?xs) = mset ds"
    proof -
      have d1: "distinct ds" unfolding ds_def using dsrt by simp
      have d2: "distinct (filter (\<lambda>e. e \<in> set ds) ?xs)" using dx by simp
      have "set (filter (\<lambda>e. e \<in> set ds) ?xs) = set ds" using sub by auto
      then show ?thesis by (rule set_eq_iff_mset_eq_distinct [OF d2 d1, THEN iffD1])
    qed
    then have "length (filter (\<lambda>e. e \<in> set ds) ?xs) = length ds"
      by (rule mset_eq_length)
    also have "\<dots> = k" unfolding ds_def srt_def using kle by simp
    finally have lrem: "length (removedBy st (enforceHistoryLimit M st)) = k"
      unfolding rem .
    have kept: "filter (\<lambda>e. \<not> isPinned e) (entries (enforceHistoryLimit M st))
        = filter (\<lambda>e. e \<notin> set ds) ?np"
      unfolding eq filter_filter by (rule filter_cong [OF refl]) auto
    have "length (filter (\<lambda>e. e \<in> set ds) ?np) + length (filter (\<lambda>e. e \<notin> set ds) ?np)
        = length ?np"
      by (rule sum_length_filter_compl)
    moreover have "filter (\<lambda>e. e \<in> set ds) ?np = filter (\<lambda>e. e \<in> set ds) ?xs"
      unfolding filter_filter by (rule filter_cong [OF refl]) (auto dest: np_ds)
    ultimately have lkept: "length (filter (\<lambda>e. e \<notin> set ds) ?np) = length ?np - k"
      using lrem unfolding rem by simp
    have sorted: "sorted (map createdAt srt)"
      unfolding srt_def sortOldestFirst_def by simp
    have order: "createdAt r \<le> createdAt e"
      if r: "r \<in> set ds" and e: "e \<in> set (filter (\<lambda>e. e \<notin> set ds) ?np)" for r e
    proof -
      have "e \<in> set srt" "e \<notin> set (take k srt)"
        using e ssrt unfolding ds_def by auto
      then have "e \<in> set (drop k srt)"
        by (metis Un_iff append_take_drop_id set_append)
      with sorted r show ?thesis
        unfolding ds_def by (intro sorted_take_le_drop [of createdAt srt r k e])
    qed
    have c1: "int (length (removedBy st (enforceHistoryLimit M st))) = int (length ?np) - L"
      unfolding lrem k_def using True by simp
    have c2: "int (length (filter (\<lambda>e. \<not> isPinned e) (entries (enforceHistoryLimit M st)))) = L"
      unfolding kept lkept k_def using True \<open>20 \<le> L\<close> by simp
    have c3: "\<forall>r \<in> set (removedBy st (enforceHistoryLimit M st)). \<not> isPinned r
          \<and> (\<forall>k \<in> set (filter (\<lambda>e. \<not> isPinned e) (entries (enforceHistoryLimit M st))).
                createdAt r \<le> createdAt k)"
      unfolding kept rem using np_ds order by auto
    have T: "clampedLimit M < int (length ?np)"
      using True unfolding L_def .
    show ?thesis
      unfolding evictsOldest_def Let_def if_P [OF T]
      by (intro conjI pinned part c1 [unfolded L_def] c2 [unfolded L_def] c3)
  qed
qed

text \<open>
  C2. Eviction is to remove the oldest count - \<open>L\<close> non-pinned entries and no pinned
  entry. It removes by id, and where two entries share an id it does not: in the store
  below, 21 non-pinned entries and one pinned entry, eviction with the limit 20 removes
  the oldest non-pinned entry and, with it, the pinned entry of the same id. No pinned
  entry is left, and two entries are gone where one was to go.
\<close>

theorem C2_pinned_entry_evicted:
  "getPinnedEntryCount dupIdStorage = 1
   \<and> getNonPinnedEntryCount dupIdStorage = 21
   \<and> getPinnedEntryCount (enforceHistoryLimit 20 dupIdStorage) = 0
   \<and> getNonPinnedEntryCount (enforceHistoryLimit 20 dupIdStorage) = 20
   \<and> map id_entry (removedBy dupIdStorage (enforceHistoryLimit 20 dupIdStorage)) = [0, 0]"
  by code_simp

section \<open>Query\<close>

lemma includes_str_sublist: "includes_str s q \<longleftrightarrow> sublist q s"
  by (induction s) (simp_all add: sublist_Cons_right)

lemma includes_ciSubstring:
  "includes_str (lc s) (lc q) \<longleftrightarrow> ciSubstring lc q s"
  by (simp add: ciSubstring_def includes_str_sublist)

lemma optIncludes_ciSubstring:
  "optIncludes lc field (lc q) \<longleftrightarrow> optCiSubstring lc q field"
  by (cases field) (simp_all add: optIncludes_def optCiSubstring_def includes_ciSubstring)

text \<open>The three filters of the query select the entries that match the options.\<close>

lemma getClipboardHistory_filtered:
  "getClipboardHistory lc options st =
     sortNewestFirst (filter (\<lambda>e. isPinned e) (filter (matchesFilters lc options) (entries st)))
     @ slice (offsetOf options) (offsetOf options + limitOf options)
         (sortNewestFirst (filter (\<lambda>e. \<not> isPinned e)
            (filter (matchesFilters lc options) (entries st))))"
proof -
  define f1 where "f1 = (\<lambda>e::ClipboardEntry. case category_opt options of
         None \<Rightarrow> True
       | Some c \<Rightarrow> c = [] \<or> c = ''all''
                   \<or> (case category e of None \<Rightarrow> False | Some ec \<Rightarrow> ciEqual lc ec c))"
  define f2 where "f2 = (\<lambda>e::ClipboardEntry. case contentType_opt options of
            None \<Rightarrow> True
          | Some t \<Rightarrow> t = [] \<or> formatName (format e) = t)"
  define f3 where "f3 = (\<lambda>e::ClipboardEntry. case searchQuery options of
            None \<Rightarrow> True
          | Some q \<Rightarrow> q = [] \<or> searchMatch lc q e)"
  define xs1 where "xs1 = (case category_opt options of
               None \<Rightarrow> entries st
             | Some category' \<Rightarrow>
                 if category' \<noteq> [] \<and> category' \<noteq> ''all''
                 then filter (\<lambda>entry.
                        case EntryDraft.category entry of
                          None \<Rightarrow> False
                        | Some c \<Rightarrow> lc c = lc category') (entries st)
                 else entries st)"
  define xs2 where "xs2 = (case contentType_opt options of
               None \<Rightarrow> xs1
             | Some contentType' \<Rightarrow>
                 if contentType' \<noteq> []
                 then filter (\<lambda>entry. formatName (format entry) = contentType') xs1
                 else xs1)"
  define xs3 where "xs3 = (case searchQuery options of
               None \<Rightarrow> xs2
             | Some searchQuery' \<Rightarrow>
                 if searchQuery' \<noteq> []
                 then (let query = lc searchQuery'
                       in filter (\<lambda>entry.
                            includes_str (lc (content entry)) query
                            \<or> optIncludes lc (preview entry) query
                            \<or> optIncludes lc (EntryDraft.category entry) query
                            \<or> optIncludes lc (note_entry entry) query) xs2)
                 else xs2)"
  have 1: "xs1 = filter f1 (entries st)"
    unfolding xs1_def f1_def
    by (auto simp: ciEqual_def split: option.splits intro!: filter_cong)
  have 2: "xs2 = filter f2 xs1"
    unfolding xs2_def f2_def by (auto split: option.splits)
  have 3: "xs3 = filter f3 xs2"
    unfolding xs3_def f3_def
    by (auto simp: searchMatch_def includes_ciSubstring optIncludes_ciSubstring Let_def
        split: option.splits)
  have "matchesFilters lc options = (\<lambda>e. f1 e \<and> f2 e \<and> f3 e)"
    unfolding matchesFilters_def f1_def f2_def f3_def by (rule ext) simp
  then have all: "xs3 = filter (matchesFilters lc options) (entries st)"
    unfolding 3 2 1 by (auto intro: filter_cong)
  have "getClipboardHistory lc options st =
      sortNewestFirst (filter (\<lambda>e. isPinned e) xs3)
      @ slice (offsetOf options) (offsetOf options + limitOf options)
          (sortNewestFirst (filter (\<lambda>e. \<not> isPinned e) xs3))"
    unfolding getClipboardHistory_def xs3_def xs2_def xs1_def offsetOf_def limitOf_def Let_def
    by (rule refl)
  then show ?thesis
    unfolding all .
qed

lemma mset_sortNewestFirst [simp]: "mset (sortNewestFirst xs) = mset xs"
  by (simp add: sortNewestFirst_def)

lemma newestFirst_sortNewestFirst: "newestFirst (sortNewestFirst xs)"
proof -
  have "sorted (map (\<lambda>e. - createdAt e) (sort_key (\<lambda>e. - createdAt e) xs))"
    by (rule sorted_sort_key)
  then show ?thesis
    unfolding newestFirst_def sortNewestFirst_def by (simp add: sorted_wrt_map)
qed


lemma slice_nonneg:
  assumes "0 \<le> a" "0 \<le> n"
  shows "slice a (a + n) xs = take (nat n) (drop (nat a) xs)"
proof (cases "a \<le> int (length xs)")
  case True
  have "take (nat (min (a + n) (int (length xs)) - a)) (drop (nat a) xs)
      = take (nat n) (drop (nat a) xs)"
  proof (cases "a + n \<le> int (length xs)")
    case True
    then show ?thesis by (simp add: min_def)
  next
    case False
    then have "length (drop (nat a) xs) \<le> nat n"
      "length (drop (nat a) xs) \<le> nat (min (a + n) (int (length xs)) - a)"
      using assms by (simp_all add: min_def)
    then show ?thesis by simp
  qed
  then show ?thesis
    using assms True by (simp add: slice_def Let_def min_def)
next
  case False
  then show ?thesis
    using assms by (simp add: slice_def Let_def min_def)
qed

text \<open>
  C3. For every case folding \<open>lc\<close> of the runtime, the query returns all pinned
  entries that match the filters, newest first, followed by the slice from offset to
  offset + limit of the non-pinned entries that match, newest first. Neither offset nor
  limit touches the pinned part. For an offset and a limit that are not negative the
  slice drops \<open>offset\<close> entries and takes \<open>limit\<close>.
\<close>

theorem C3_query_pinned_first:
  "(let P = sortNewestFirst (pinnedMatches lc options st);
        N = sortNewestFirst (nonPinnedMatches lc options st);
        off = offsetOf options;
        lim = limitOf options
    in getClipboardHistory lc options st = P @ slice off (off + lim) N
       \<and> mset P = mset (pinnedMatches lc options st) \<and> newestFirst P
       \<and> mset N = mset (nonPinnedMatches lc options st) \<and> newestFirst N
       \<and> (0 \<le> off \<and> 0 \<le> lim \<longrightarrow> slice off (off + lim) N = take (nat lim) (drop (nat off) N)))"
proof -
  have "getClipboardHistory lc options st =
      sortNewestFirst (pinnedMatches lc options st)
      @ slice (offsetOf options) (offsetOf options + limitOf options)
          (sortNewestFirst (nonPinnedMatches lc options st))"
    unfolding getClipboardHistory_filtered pinnedMatches_def nonPinnedMatches_def
    by (simp add: conj_commute)
  then show ?thesis
    unfolding Let_def
    by (simp add: newestFirst_sortNewestFirst slice_nonneg)
qed

theorem C3_query_pinned_first_witness:
  "0 \<le> offsetOf noOptions \<and> 0 \<le> limitOf noOptions
   \<and> getClipboardHistory asciiLower noOptions testStorage =
       sortNewestFirst (pinnedMatches asciiLower noOptions testStorage)
       @ take (nat (limitOf noOptions)) (drop (nat (offsetOf noOptions))
           (sortNewestFirst (nonPinnedMatches asciiLower noOptions testStorage)))
   \<and> map content (getClipboardHistory asciiLower noOptions testStorage)
       = [''Pinned item'', ''Regular item 2'', ''Regular item 1'']"
proof -
  have "map content (getClipboardHistory asciiLower noOptions testStorage)
       = [''Pinned item'', ''Regular item 2'', ''Regular item 1'']"
    by code_simp
  then show ?thesis
    using C3_query_pinned_first [of asciiLower noOptions testStorage]
    by (simp add: Let_def offsetOf_def limitOf_def noOptions_def)
qed








section \<open>Classification\<close>

lemma handleClipboardChange_saved:
  assumes "handleClipboardChange dets ext ga gm f c t1 t2 st = (Some e, st')"
  shows "content e = c \<and> format e = f
    \<and> contentType e = detectContentType dets c f
    \<and> preview e = Some (generatePreview ext c f)
    \<and> category e = Some (asyncCategorizeContent dets ga c f)"
proof (cases gm)
  case Throws
  with assms show ?thesis
    by (simp add: handleClipboardChange_def)
next
  case (Returns v)
  with assms have "e = fst (addClipboardEntry
      \<lparr>content = c, contentType = detectContentType dets c f, format = f,
         preview = Some (generatePreview ext c f), filePath = None,
         appName = Some ''Unknown App'', isPinned = False, isFavorite = False,
         category = Some (asyncCategorizeContent dets ga c f), tags = [], usageCount = 0,
         lastUsedAt = None, note_entry = None\<rparr>
      (Some (case v of None \<Rightarrow> 40 | Some m \<Rightarrow> if m = 0 then 40 else m)) t1 t2 st)"
    by (simp add: handleClipboardChange_def Let_def case_prod_beta)
  then show ?thesis
    by (simp add: addClipboardEntry_def Let_def EntryDraft.defs ClipboardEntry.defs)
qed

lemma handleClipboardChange_returns:
  "\<exists>e st'. handleClipboardChange dets ext ga (Returns v) f c t1 t2 st = (Some e, st')"
  by (simp add: handleClipboardChange_def Let_def case_prod_beta)

text \<open>
  C5 (amended). The preview is at most 103 characters long. For plain text longer than 100
  characters it is the first 100 characters followed by three dots; shorter plain text is
  its own preview; for the image and file formats it is a fixed placeholder.
\<close>

theorem C5_preview_length:
  "length (generatePreview ext c f) \<le> 103
   \<and> (f = Text \<and> length c > 100 \<longrightarrow> generatePreview ext c f = take 100 c @ ''...'')
   \<and> (f = Text \<and> length c \<le> 100 \<longrightarrow> generatePreview ext c f = c)
   \<and> (f = Image \<longrightarrow> generatePreview ext c f = ''[Image]'')
   \<and> (f = File \<longrightarrow> generatePreview ext c f = ''[File]'')"
  by (cases f) (simp_all add: generatePreview_def Let_def)

theorem C5_preview_length_witness:
  "length (replicate 101 (CHR ''a'')) > 100
   \<and> generatePreview noStripping (replicate 101 (CHR ''a'')) Text
       = take 100 (replicate 101 (CHR ''a'')) @ ''...''
   \<and> generatePreview noStripping ''data:image/png;base64,AAAA'' Image = ''[Image]''"
  using C5_preview_length [of noStripping "replicate 101 (CHR ''a'')" Text]
    C5_preview_length [of noStripping "''data:image/png;base64,AAAA''" Image]
  by simp

text \<open>
  C5 as stated fails for plain text of 101 characters: its preview has 103 characters.
\<close>

theorem C5_preview_103_counterexample:
  "length (generatePreview noStripping (replicate 101 (CHR ''a'')) Text) = 103
   \<and> \<not> length (generatePreview noStripping (replicate 101 (CHR ''a'')) Text) \<le> 100"
  by (simp add: generatePreview_def)

text \<open>
  C6. For the formats html and rtf the category is \<open>Rich Text\<close>, whatever the
  autoCategories setting is or does (also false, undefined, or a failing read), and so is
  the category of the entry that is inserted. With autoCategories false, plain text gets
  the category \<open>Uncategorized\<close>.
\<close>

theorem C6_rich_text_category:
  "(f = Html \<or> f = Rtf \<longrightarrow> asyncCategorizeContent dets ga c f = ''Rich Text'')
   \<and> (f = Html \<or> f = Rtf \<longrightarrow>
        handleClipboardChange dets ext ga gm f c t1 t2 st = (Some e, st') \<longrightarrow>
        category e = Some ''Rich Text'')
   \<and> (f = Text \<longrightarrow> asyncCategorizeContent dets (Returns (Some False)) c f = ''Uncategorized'')"
proof -
  have rich: "asyncCategorizeContent dets ga c f = ''Rich Text''" if "f = Html \<or> f = Rtf"
    using that by (auto simp: asyncCategorizeContent_def)
  have "category e = Some ''Rich Text''"
    if "f = Html \<or> f = Rtf"
      and "handleClipboardChange dets ext ga gm f c t1 t2 st = (Some e, st')"
    using handleClipboardChange_saved [OF that(2)] rich [OF that(1)] by simp
  moreover have "asyncCategorizeContent dets (Returns (Some False)) c Text = ''Uncategorized''"
    by (simp add: asyncCategorizeContent_def)
  ultimately show ?thesis
    using rich by blast
qed

theorem C6_rich_text_category_witness:
  "asyncCategorizeContent schemeDetectors (Returns (Some False)) ''<b>https://a</b>'' Html
     = ''Rich Text''
   \<and> asyncCategorizeContent schemeDetectors (Returns (Some False)) ''https://a'' Text
     = ''Uncategorized''
   \<and> map_option category (fst (handleClipboardChange schemeDetectors noStripping
        (Returns (Some False)) (Returns (Some 40)) Rtf ''{rtf x}'' 1 1 emptyStorage))
     = Some (Some ''Rich Text'')"
proof -
  obtain e st' where h: "handleClipboardChange schemeDetectors noStripping
        (Returns (Some False)) (Returns (Some 40)) Rtf ''{rtf x}'' 1 1 emptyStorage = (Some e, st')"
    using handleClipboardChange_returns by blast
  have "category e = Some ''Rich Text''"
    using h C6_rich_text_category [of Rtf schemeDetectors "Returns (Some False)" "''{rtf x}''"
        noStripping "Returns (Some 40)" 1 1 emptyStorage e st']
    by blast
  then have 3: "map_option category (fst (handleClipboardChange schemeDetectors noStripping
        (Returns (Some False)) (Returns (Some 40)) Rtf ''{rtf x}'' 1 1 emptyStorage))
     = Some (Some ''Rich Text'')"
    unfolding h by simp
  have 1: "asyncCategorizeContent schemeDetectors (Returns (Some False)) ''<b>https://a</b>'' Html
     = ''Rich Text''"
    using C6_rich_text_category [of Html schemeDetectors "Returns (Some False)" "''<b>https://a</b>''"]
    by blast
  have 2: "asyncCategorizeContent schemeDetectors (Returns (Some False)) ''https://a'' Text
     = ''Uncategorized''"
    using C6_rich_text_category [of Text schemeDetectors _ "''https://a''"]
    by blast
  from 1 2 3 show ?thesis by blast
qed

text \<open>
  C7. For the formats image, file, html and rtf the content type is the fixed one and does
  not depend on the content or on any detector; for plain text it is the type of the first
  of the URL, email, phone and code detectors that matches, and \<open>text\<close> when none does.
\<close>

theorem C7_detectContentType:
  "detectContentType dets c f =
     (case fixedContentType f of
        Some t \<Rightarrow> t
      | None \<Rightarrow> firstMatch (detectorsInOrder dets) c)
   \<and> (f \<noteq> Text \<longrightarrow> detectContentType dets c f = detectContentType dets' c' f)"
  by (cases f) (simp_all add: detectContentType_def firstMatch_def detectorsInOrder_def)

theorem C7_detectContentType_witness:
  "Html \<noteq> Text
   \<and> detectContentType schemeDetectors ''https://example.com/path?x=1'' Html = ''rich-text''
   \<and> detectContentType schemeDetectors ''https://example.com/path?x=1'' Text = ''url''
   \<and> detectContentType schemeDetectors ''user@example.com'' Text = ''email''
   \<and> detectContentType schemeDetectors ''Hello World'' Text = ''text''"
proof -
  have 1: "firstMatch (detectorsInOrder schemeDetectors) ''https://example.com/path?x=1'' = ''url''"
    by code_simp
  have 2: "firstMatch (detectorsInOrder schemeDetectors) ''user@example.com'' = ''email''"
    by code_simp
  have 3: "firstMatch (detectorsInOrder schemeDetectors) ''Hello World'' = ''text''"
    by code_simp
  have "detectContentType schemeDetectors ''https://example.com/path?x=1'' Html = ''rich-text''"
    using C7_detectContentType [of schemeDetectors "''https://example.com/path?x=1''" Html]
    by (simp only: fixedContentType.simps option.case)
  moreover have "detectContentType schemeDetectors ''https://example.com/path?x=1'' Text = ''url''"
    using C7_detectContentType [of schemeDetectors "''https://example.com/path?x=1''" Text]
    by (simp only: fixedContentType.simps option.case 1)
  moreover have "detectContentType schemeDetectors ''user@example.com'' Text = ''email''"
    using C7_detectContentType [of schemeDetectors "''user@example.com''" Text]
    by (simp only: fixedContentType.simps option.case 2)
  moreover have "detectContentType schemeDetectors ''Hello World'' Text = ''text''"
    using C7_detectContentType [of schemeDetectors "''Hello World''" Text]
    by (simp only: fixedContentType.simps option.case 3)
  moreover have "Html \<noteq> Text"
    by simp
  ultimately show ?thesis
    by blast
qed

section \<open>Settings, and operations on a missing id\<close>

text \<open>
  C8. When the \<open>settings:set\<close> handler completes for the key \<open>maxHistoryItems\<close> and a
  number \<open>v\<close>, the store is the one that eviction with the limit \<open>v\<close> leaves, and it holds
  at most clamp(\<open>v\<close>) non-pinned entries. The handler completes whenever the settings
  manager's \<open>set\<close> does.
\<close>

theorem C8_limit_change_evicts:
  "(settingsSetHandler co ''maxHistoryItems'' (NumberV v) app = (Returns r, app') \<longrightarrow>
      storageManager app' = enforceHistoryLimit v (storageManager app)
      \<and> int (getNonPinnedEntryCount (storageManager app')) \<le> clampedLimit v)
   \<and> (settingsSet co ''maxHistoryItems'' (NumberV v) (settingsManager app) = Returns s' \<longrightarrow>
      settingsSetHandler co ''maxHistoryItems'' (NumberV v) app =
        (Returns True, app\<lparr>settingsManager := s',
           storageManager := enforceHistoryLimit v (storageManager app)\<rparr>))"
proof -
  have 2: "settingsSetHandler co ''maxHistoryItems'' (NumberV v) app =
        (Returns True, app\<lparr>settingsManager := s',
           storageManager := enforceHistoryLimit v (storageManager app)\<rparr>)"
    if "settingsSet co ''maxHistoryItems'' (NumberV v) (settingsManager app) = Returns s'" for s'
    using that by (simp add: settingsSetHandler_def)
  have 1: "storageManager app' = enforceHistoryLimit v (storageManager app)"
    if h: "settingsSetHandler co ''maxHistoryItems'' (NumberV v) app = (Returns r, app')"
  proof (cases "settingsSet co ''maxHistoryItems'' (NumberV v) (settingsManager app)")
    case Throws
    with h show ?thesis by (simp add: settingsSetHandler_def)
  next
    case (Returns s)
    from h show ?thesis unfolding 2 [OF Returns] by auto
  qed
  show ?thesis
    using 1 2 enforceHistoryLimit_bound [of v "storageManager app"] by auto
qed

theorem C8_limit_change_evicts_witness:
  "settingsSet mapCollaborators ''maxHistoryItems'' (NumberV 20) (settingsManager fullApp)
     = Returns [''maxHistoryItems'' \<mapsto> NumberV 20]
   \<and> settingsSetHandler mapCollaborators ''maxHistoryItems'' (NumberV 20) fullApp =
        (Returns True, fullApp\<lparr>settingsManager := [''maxHistoryItems'' \<mapsto> NumberV 20],
           storageManager := enforceHistoryLimit 20 fullStorage\<rparr>)
   \<and> int (getNonPinnedEntryCount (enforceHistoryLimit 20 fullStorage)) \<le> clampedLimit 20"
proof -
  have h: "settingsSet mapCollaborators ''maxHistoryItems'' (NumberV 20) (settingsManager fullApp)
     = Returns [''maxHistoryItems'' \<mapsto> NumberV 20]"
    by (simp add: mapCollaborators_def fullApp_def)
  have s: "storageManager fullApp = fullStorage"
    by (simp add: fullApp_def)
  note t = C8_limit_change_evicts [of mapCollaborators 20 fullApp True
      "fullApp\<lparr>settingsManager := [''maxHistoryItems'' \<mapsto> NumberV 20],
         storageManager := enforceHistoryLimit 20 fullStorage\<rparr>"
      "[''maxHistoryItems'' \<mapsto> NumberV 20]"]
  have e: "settingsSetHandler mapCollaborators ''maxHistoryItems'' (NumberV 20) fullApp =
        (Returns True, fullApp\<lparr>settingsManager := [''maxHistoryItems'' \<mapsto> NumberV 20],
           storageManager := enforceHistoryLimit 20 fullStorage\<rparr>)"
    using t h unfolding s by blast
  have "int (getNonPinnedEntryCount (enforceHistoryLimit 20 fullStorage)) \<le> clampedLimit 20"
    using t e unfolding s by simp
  with h e show ?thesis by blast
qed

lemma findIndex_ge: "- 1 \<le> findIndex P xs"
  by (induction xs) (simp_all add: Let_def)

lemma findIndex_none: "findIndex P xs = - 1 \<longleftrightarrow> (\<forall>x \<in> set xs. \<not> P x)"
proof (induction xs)
  case Nil
  show ?case by simp
next
  case (Cons x xs)
  have "findIndex P xs + 1 \<noteq> - 1"
    using findIndex_ge [of P xs] by simp
  with Cons show ?case
    by (simp add: Let_def)
qed

text \<open>
  C9. For an id that no entry of the store has, update and pin return null and delete
  returns false; none of them has a failing path, and each leaves the store, entries and
  all, as it was.
\<close>

theorem C9_missing_id:
  assumes "i \<notin> id_entry ` set (entries st)"
  shows "updateClipboardEntry i updates now st = (None, st)
    \<and> pinClipboardEntry i now st = (None, st)
    \<and> deleteClipboardEntry i st = (False, st)"
proof -
  have "\<forall>e \<in> set (entries st). \<not> id_entry e = i"
    using assms by blast
  then have idx: "findIndex (\<lambda>e. id_entry e = i) (entries st) = - 1"
    by (simp only: findIndex_none)
  have none: "find (\<lambda>e. id_entry e = i) (entries st) = None"
    using assms by (auto simp: find_None_iff)
  have keep: "filter (\<lambda>e. id_entry e \<noteq> i) (entries st) = entries st"
    using assms by (intro filter_True) blast
  have "updateClipboardEntry i updates now st = (None, st)"
    unfolding updateClipboardEntry_def Let_def idx by simp
  moreover have "pinClipboardEntry i now st = (None, st)"
    unfolding pinClipboardEntry_def none by simp
  moreover have "deleteClipboardEntry i st = (False, st)"
    unfolding deleteClipboardEntry_def Let_def keep by simp
  ultimately show ?thesis by blast
qed

theorem C9_missing_id_witness:
  "99 \<notin> id_entry ` set (entries fullStorage)
   \<and> updateClipboardEntry 99 (noteUpdate ''n'') 7 fullStorage = (None, fullStorage)
   \<and> pinClipboardEntry 99 7 fullStorage = (None, fullStorage)
   \<and> deleteClipboardEntry 99 fullStorage = (False, fullStorage)"
proof -
  have "list_all (\<lambda>e. id_entry e \<noteq> 99) (entries fullStorage)"
    by code_simp
  then have h: "99 \<notin> id_entry ` set (entries fullStorage)"
    by (auto simp: list_all_iff)
  show ?thesis
    using h C9_missing_id [OF h, of "noteUpdate ''n''" 7] by blast
qed

section \<open>The content type filter\<close>

lemma insort_key_map_commute:
  assumes "\<And>x. f (h x) = f x"
  shows "insort_key f (h x) (map h ys) = map h (insort_key f x ys)"
  by (induction ys) (simp_all add: assms)

lemma sort_key_map_commute:
  assumes "\<And>x. f (h x) = f x"
  shows "sort_key f (map h xs) = map h (sort_key f xs)"
  using assms by (induction xs) (simp_all add: sort_key_simps insort_key_map_commute)

lemma slice_map: "slice a b (map h xs) = map h (slice a b xs)"
  by (simp add: slice_def Let_def take_map drop_map)

lemma set_slice_subset: "set (slice a b xs) \<subseteq> set xs"
proof -
  have "set (take n (drop k xs)) \<subseteq> set xs" for n k
    using set_take_subset [of n "drop k xs"] set_drop_subset [of k xs] by blast
  then show ?thesis
    unfolding slice_def Let_def .
qed

lemma slice_Nil [simp]: "slice a b [] = []"
  by (simp add: slice_def)

lemma matchesFilters_contentType_update:
  "matchesFilters lc options (e\<lparr>contentType := t\<rparr>) = matchesFilters lc options e"
  by (simp add: matchesFilters_def searchMatch_def split: option.splits)

lemma getClipboardHistory_retag:
  "getClipboardHistory lc options (st\<lparr>entries := map (\<lambda>e. e\<lparr>contentType := g e\<rparr>) (entries st)\<rparr>)
     = map (\<lambda>e. e\<lparr>contentType := g e\<rparr>) (getClipboardHistory lc options st)"
proof -
  let ?h = "\<lambda>e::ClipboardEntry. e\<lparr>contentType := g e\<rparr>"
  have f: "filter (\<lambda>x. matchesFilters lc options x \<and> P x) (map ?h xs)
      = map ?h (filter (\<lambda>x. matchesFilters lc options x \<and> P (?h x)) xs)" for P xs
    by (simp add: filter_map o_def matchesFilters_contentType_update)
  have s: "sortNewestFirst (map ?h xs) = map ?h (sortNewestFirst xs)" for xs
    unfolding sortNewestFirst_def by (rule sort_key_map_commute) simp
  show ?thesis
    unfolding getClipboardHistory_filtered
    by (simp add: f s slice_map)
qed

lemma matchesFilters_contentType:
  assumes "contentType_opt options = Some t" and "t \<noteq> []"
  shows "matchesFilters lc options e \<longleftrightarrow>
     formatName (format e) = t \<and> matchesFilters lc (options\<lparr>contentType_opt := None\<rparr>) e"
  using assms by (auto simp: matchesFilters_def)

text \<open>
  C10. A query with a contentType option \<open>t\<close> compares \<open>t\<close> with the format of each
  entry, never with its contentType field: the result is made of exactly the entries whose
  format name is \<open>t\<close> and that pass the other filters (pinned ones first, then the page
  of the non-pinned ones); replacing the contentType fields of the store's entries by
  anything changes only that field of what is returned; and a \<open>t\<close> that is no format name
  (such as url, email, phone or code) makes the query return nothing.
\<close>

theorem C10_contentType_filters_format:
  assumes "contentType_opt options = Some t" and "t \<noteq> []"
  shows "getClipboardHistory lc options st =
       sortNewestFirst (filter (\<lambda>e. isPinned e \<and> formatName (format e) = t
           \<and> matchesFilters lc (options\<lparr>contentType_opt := None\<rparr>) e) (entries st))
       @ slice (offsetOf options) (offsetOf options + limitOf options)
           (sortNewestFirst (filter (\<lambda>e. \<not> isPinned e \<and> formatName (format e) = t
              \<and> matchesFilters lc (options\<lparr>contentType_opt := None\<rparr>) e) (entries st)))
    \<and> (\<forall>e \<in> set (getClipboardHistory lc options st). formatName (format e) = t)
    \<and> (t \<notin> set [''text'', ''image'', ''file'', ''html'', ''rtf'']
          \<longrightarrow> getClipboardHistory lc options st = [])
    \<and> getClipboardHistory lc options
          (st\<lparr>entries := map (\<lambda>e. e\<lparr>contentType := g e\<rparr>) (entries st)\<rparr>)
        = map (\<lambda>e. e\<lparr>contentType := g e\<rparr>) (getClipboardHistory lc options st)"
proof -
  note m = matchesFilters_contentType [OF assms]
  have 0: "getClipboardHistory lc options st =
       sortNewestFirst (filter (\<lambda>e. isPinned e \<and> formatName (format e) = t
           \<and> matchesFilters lc (options\<lparr>contentType_opt := None\<rparr>) e) (entries st))
       @ slice (offsetOf options) (offsetOf options + limitOf options)
           (sortNewestFirst (filter (\<lambda>e. \<not> isPinned e \<and> formatName (format e) = t
              \<and> matchesFilters lc (options\<lparr>contentType_opt := None\<rparr>) e) (entries st)))"
    unfolding getClipboardHistory_filtered filter_filter m
    by (simp add: conj_commute conj_left_commute)
  have "set (getClipboardHistory lc options st)
      \<subseteq> set (filter (matchesFilters lc options) (entries st))"
    unfolding getClipboardHistory_filtered
    using set_slice_subset [of "offsetOf options" "offsetOf options + limitOf options"
        "sortNewestFirst (filter (\<lambda>e. \<not> isPinned e) (filter (matchesFilters lc options) (entries st)))"]
    by (auto simp: sortNewestFirst_def)
  then have 1: "\<forall>e \<in> set (getClipboardHistory lc options st). formatName (format e) = t"
    using m by auto
  have 2: "getClipboardHistory lc options st = []"
    if "t \<notin> set [''text'', ''image'', ''file'', ''html'', ''rtf'']"
  proof -
    have "\<not> matchesFilters lc options e" for e
      using m [where e = e] that by (cases "format e") auto
    then have "filter (matchesFilters lc options) (entries st) = []"
      by (intro filter_False) blast
    then show ?thesis
      unfolding getClipboardHistory_filtered by (simp add: sortNewestFirst_def)
  qed
  show ?thesis
    using 0 1 2 getClipboardHistory_retag by blast
qed

theorem C10_contentType_filters_format_witness:
  "contentType_opt (contentTypeQuery ''url'') = Some ''url'' \<and> ''url'' \<noteq> []
   \<and> ''url'' \<notin> set [''text'', ''image'', ''file'', ''html'', ''rtf'']
   \<and> map contentType (entries urlStorage) = [''image'', ''url'']
   \<and> getClipboardHistory asciiLower (contentTypeQuery ''url'') urlStorage = []
   \<and> map id_entry (getClipboardHistory asciiLower (contentTypeQuery ''text'') urlStorage) = [1]
   \<and> map id_entry (getClipboardHistory asciiLower (contentTypeQuery ''image'') urlStorage) = [2]"
proof -
  have a: "contentType_opt (contentTypeQuery ''url'') = Some ''url''"
    by (simp add: contentTypeQuery_def)
  have b: "''url'' \<noteq> []"
    by simp
  have c: "''url'' \<notin> set [''text'', ''image'', ''file'', ''html'', ''rtf'']"
    by simp
  have d: "map contentType (entries urlStorage) = [''image'', ''url'']"
    by (simp add: urlStorage_def)
  have e: "map id_entry (getClipboardHistory asciiLower (contentTypeQuery ''text'') urlStorage) = [1]"
    by code_simp
  have f: "map id_entry (getClipboardHistory asciiLower (contentTypeQuery ''image'') urlStorage) = [2]"
    by code_simp
  have "getClipboardHistory asciiLower (contentTypeQuery ''url'') urlStorage = []"
    using c C10_contentType_filters_format [OF a b, of asciiLower urlStorage] by blast
  with a b c d e f show ?thesis by blast
qed

end
